theory Spec2Isabelle
  imports Complex_Main "HOL-Library.Sublist" "HOL-Library.Word"
begin

section \<open>Frontend data model (frontend/app/page.js)\<close>

text \<open>
  A review as the dashboard receives it in the \<^verbatim>\<open>data\<close> array of the backend's JSON
  answer. The sentiment label arrives as a JSON string and is used as a property name of
  the counts object, so it is kept as a string here; the three labels of the data model
  are the strings \<^verbatim>\<open>Positive\<close>, \<^verbatim>\<open>Negative\<close> and \<^verbatim>\<open>Neutral\<close>.
\<close>

record review =
  product_name :: string
  review_text :: string
  rating :: int
  sentiment_label :: string
  sentiment_score :: rat

definition sentiment_labels :: "string list" where
  "sentiment_labels = [''Positive'', ''Negative'', ''Neutral'']"

text \<open>A record of the data model: its label is one of the three label values.\<close>

definition is_review :: "review \<Rightarrow> bool" where
  "is_review r = (sentiment_label r \<in> set sentiment_labels)"

subsection \<open>The counts object\<close>

text \<open>
  The accumulator of the reduction is a plain object whose own properties hold numbers:
  a map from property names to counts. Counts are JavaScript numbers that only ever hold
  integers here (an array has fewer than \<open>2^32\<close> elements, far inside the exact range of
  a double), so they are \<open>int\<close>. A label that names a property inherited from
  \<^verbatim>\<open>Object.prototype\<close> is outside this model; none of the three labels does.
\<close>

type_synonym counts = "string \<rightharpoonup> int"

definition initial_counts :: counts where
  "initial_counts = [''Positive'' \<mapsto> 0, ''Negative'' \<mapsto> 0, ''Neutral'' \<mapsto> 0]"

text \<open>\<^verbatim>\<open>acc[k] || 0\<close>: an absent property and the number \<open>0\<close> are both falsy.\<close>

definition or_zero :: "int option \<Rightarrow> int" where
  "or_zero v = (case v of None \<Rightarrow> 0 | Some n \<Rightarrow> (if n = 0 then 0 else n))"

text \<open>
  The callback of \<^verbatim>\<open>reviews.reduce\<close>:
  \<^verbatim>\<open>acc[review.sentiment_label] = (acc[review.sentiment_label] || 0) + 1; return acc;\<close>
\<close>

definition count_review :: "counts \<Rightarrow> review \<Rightarrow> counts" where
  "count_review acc r = acc(sentiment_label r \<mapsto> or_zero (acc (sentiment_label r)) + 1)"

text \<open>\<^verbatim>\<open>Array.prototype.reduce\<close> with an initial value: a left fold in array order.\<close>

fun reduce :: "('b \<Rightarrow> 'a \<Rightarrow> 'b) \<Rightarrow> 'a list \<Rightarrow> 'b \<Rightarrow> 'b" where
  "reduce f [] acc = acc"
| "reduce f (x # xs) acc = reduce f xs (f acc x)"

definition sentimentCounts :: "review list \<Rightarrow> counts" where
  "sentimentCounts reviews =
     (if length reviews = 0 then [''Positive'' \<mapsto> 0, ''Negative'' \<mapsto> 0, ''Neutral'' \<mapsto> 0]
      else reduce count_review reviews initial_counts)"

text \<open>The number of reviews of a sequence that carry a given label.\<close>

definition matching :: "string \<Rightarrow> review list \<Rightarrow> nat" where
  "matching l reviews = length (filter (\<lambda>r. sentiment_label r = l) reviews)"

subsection \<open>The page state and the scrape handler\<close>

text \<open>
  A JavaScript string is a sequence of UTF-16 code units. The product URL is kept in this
  form, since \<^verbatim>\<open>trim\<close> looks at its code units; the messages and the sheet URL are
  only stored and tested for emptiness.
\<close>

type_synonym code_unit = "16 word"

type_synonym js_string = "code_unit list"

text \<open>The code units of a string of ASCII characters.\<close>

definition utf16 :: "string \<Rightarrow> js_string" where
  "utf16 s = map (\<lambda>c. of_nat (of_char c)) s"

text \<open>
  The component's state hooks. \<^verbatim>\<open>error\<close> is \<^verbatim>\<open>null\<close> or a message.
\<close>

record page_state =
  productUrl :: js_string
  reviews :: "review list"
  isLoading :: bool
  error :: "string option"
  sheetUrl :: string

text \<open>
  The parsed JSON body of the backend's answer, with the three properties the handler
  reads; each may be missing.
\<close>

record scrape_result =
  detail :: "string option"
  data :: "review list option"
  sheet_url :: "string option"

text \<open>
  What the request does, as the handler sees it: \<^verbatim>\<open>fetch\<close> or \<^verbatim>\<open>response.json()\<close>
  throws an error with a message (a rejected request, a body that is not JSON, a body
  that is \<^verbatim>\<open>null\<close>), or a response with a status code and a parsed body arrives.
\<close>

datatype fetch_outcome = Thrown string | Response nat scrape_result

text \<open>\<^verbatim>\<open>response.ok\<close>: the status is in the range 200 to 299.\<close>

definition ok :: "nat \<Rightarrow> bool" where
  "ok status = (200 \<le> status \<and> status \<le> 299)"

text \<open>\<^verbatim>\<open>a || b\<close> on strings: a missing value and the empty string are falsy.\<close>

definition or_string :: "string option \<Rightarrow> string \<Rightarrow> string" where
  "or_string a b = (case a of None \<Rightarrow> b | Some s \<Rightarrow> (if s = [] then b else s))"

text \<open>\<^verbatim>\<open>result.data || []\<close>: an array, even an empty one, is truthy.\<close>

definition or_empty :: "'a list option \<Rightarrow> 'a list" where
  "or_empty a = (case a of None \<Rightarrow> [] | Some xs \<Rightarrow> xs)"

text \<open>The decimal digits of a status code, as a template literal prints a number.\<close>

fun show_nat :: "nat \<Rightarrow> string" where
  "show_nat n =
     (if n < 10 then [''0123456789'' ! n]
      else show_nat (n div 10) @ [''0123456789'' ! (n mod 10)])"

declare show_nat.simps [simp del]

text \<open>
  The code units that \<^verbatim>\<open>String.prototype.trim\<close> strips: the white space of ECMAScript
  (tab, vertical tab, form feed, the byte order mark \<open>U+FEFF\<close> and the space separators
  of Unicode: space, no-break space, \<open>U+1680\<close>, \<open>U+2000\<close> to \<open>U+200A\<close>, \<open>U+202F\<close>,
  \<open>U+205F\<close>, \<open>U+3000\<close>) and its line terminators (line feed, carriage return,
  \<open>U+2028\<close>, \<open>U+2029\<close>). All of them are single code units.
\<close>

definition is_whitespace :: "code_unit \<Rightarrow> bool" where
  "is_whitespace c =
     (c \<in> set [0x0009, 0x000B, 0x000C, 0xFEFF,
                0x0020, 0x00A0, 0x1680, 0x202F, 0x205F, 0x3000,
                0x000A, 0x000D, 0x2028, 0x2029]
      \<or> (0x2000 \<le> c \<and> c \<le> 0x200A))"

text \<open>\<^verbatim>\<open>String.prototype.trim\<close>: white space is stripped from both ends.\<close>

definition trim :: "js_string \<Rightarrow> js_string" where
  "trim s = rev (dropWhile is_whitespace (rev (dropWhile is_whitespace s)))"

text \<open>
  The four setter calls before the request:
  \<^verbatim>\<open>setIsLoading(true); setError(null); setReviews([]); setSheetUrl('');\<close>
\<close>

definition clear_for_request :: "page_state \<Rightarrow> page_state" where
  "clear_for_request s = s\<lparr>isLoading := True, error := None, reviews := [], sheetUrl := []\<rparr>"

text \<open>
  The \<^verbatim>\<open>catch\<close> block:
  \<^verbatim>\<open>setError(e.message || "An unexpected error occurred."); setReviews([]);\<close>
\<close>

definition catch_error :: "string \<Rightarrow> page_state \<Rightarrow> page_state" where
  "catch_error message s =
     s\<lparr>error := Some (or_string (Some message) ''An unexpected error occurred.''),
       reviews := []\<rparr>"

definition no_reviews_message :: string where
  "no_reviews_message =
     ''No reviews were returned. The product might have no reviews, or scraper selectors need an update.''"

text \<open>
  The body of the \<^verbatim>\<open>try\<close> statement once the request has settled, with its
  \<^verbatim>\<open>catch\<close> and \<^verbatim>\<open>finally\<close> blocks.
\<close>

definition settle :: "fetch_outcome \<Rightarrow> page_state \<Rightarrow> page_state" where
  "settle outcome s =
     (case outcome of
        Thrown message \<Rightarrow> catch_error message s
      | Response status result \<Rightarrow>
          if \<not> ok status then
            catch_error (or_string (detail result) (''HTTP error! Status: '' @ show_nat status)) s
          else
            let s1 = s\<lparr>reviews := or_empty (data result),
                       sheetUrl := or_string (sheet_url result) []\<rparr>
            in if data result = None \<or> length (or_empty (data result)) = 0
               then s1\<lparr>error := Some no_reviews_message\<rparr>
               else s1)
     \<lparr>isLoading := False\<rparr>"

text \<open>
  One run of \<^verbatim>\<open>handleScrape\<close>: the states the component commits, in order. A blank
  URL is rejected with a message and no request is made; otherwise the state is cleared,
  the request is issued with the URL, and its outcome is settled.
\<close>

definition handleScrape ::
  "(js_string \<Rightarrow> fetch_outcome) \<Rightarrow> page_state \<Rightarrow> page_state list" where
  "handleScrape fetch s =
     (if trim (productUrl s) = [] then [s\<lparr>error := Some ''Please enter a product URL.''\<rparr>]
      else [clear_for_request s, settle (fetch (productUrl s)) (clear_for_request s)])"

text \<open>A request failure: a thrown error or a response whose status is not ok.\<close>

fun failed :: "fetch_outcome \<Rightarrow> bool" where
  "failed (Thrown message) = True"
| "failed (Response status result) = (\<not> ok status)"

subsection \<open>The tooltip percentage\<close>

text \<open>
  A JavaScript number as far as division is concerned: dividing by zero does not throw
  but gives an infinity or \<^verbatim>\<open>NaN\<close>. Finite values are kept as exact rationals, where
  the program has the nearest double.
\<close>

datatype js_number = Finite rat | PosInfinity | NegInfinity | NaN

fun js_div :: "rat \<Rightarrow> rat \<Rightarrow> js_number" where
  "js_div a b =
     (if b = 0 then (if a = 0 then NaN else if 0 < a then PosInfinity else NegInfinity)
      else Finite (a / b))"

fun js_times :: "js_number \<Rightarrow> rat \<Rightarrow> js_number" where
  "js_times (Finite a) b = Finite (a * b)"
| "js_times PosInfinity b = (if b = 0 then NaN else if 0 < b then PosInfinity else NegInfinity)"
| "js_times NegInfinity b = (if b = 0 then NaN else if 0 < b then NegInfinity else PosInfinity)"
| "js_times NaN b = NaN"

text \<open>
  What the template literal interpolates as the percentage: the number \<open>0\<close>, or the
  string that \<^verbatim>\<open>toFixed(1)\<close> makes of a number.
\<close>

datatype percentage_shown = Plain int | ToFixed1 js_number

text \<open>
  \<^verbatim>\<open>totalReviews > 0 ? ((value / totalReviews) * 100).toFixed(1) : 0\<close>, where
  \<^verbatim>\<open>totalReviews\<close> is \<^verbatim>\<open>reviews.length\<close> and \<^verbatim>\<open>value\<close> the parsed value of the segment.
\<close>

definition percentage :: "int \<Rightarrow> nat \<Rightarrow> percentage_shown" where
  "percentage val totalReviews =
     (if totalReviews > 0
      then ToFixed1 (js_times (js_div (of_int val) (of_nat totalReviews)) 100)
      else Plain 0)"

text \<open>The percentage is the number \<open>0\<close> or made from a finite number.\<close>

fun finite_shown :: "percentage_shown \<Rightarrow> bool" where
  "finite_shown (Plain n) = True"
| "finite_shown (ToFixed1 (Finite q)) = True"
| "finite_shown (ToFixed1 x) = False"

section \<open>Backend pipeline\<close>

text \<open>
  The backend (the FastAPI application behind \<^verbatim>\<open>POST /scrape\<close>) is not among the
  source files; its components are modelled from their specification.
\<close>

text \<open>Modelled from the spec: the error taxonomy of the pipeline (section 7).\<close>

datatype pipeline_error =
  InvalidReferenceError | FetchUnavailableError | SourceUnavailableError
  | PartialSourceFailure | PersistenceError

subsection \<open>Sentiment Scorer\<close>

text \<open>Modelled from the spec: the sentiment label, one of three values.\<close>

datatype label = Positive | Negative | Neutral

text \<open>Modelled from the spec: the thresholding rule of the Sentiment Scorer, whose code is
  missing. A score above \<open>+0.1\<close> is Positive, a score below \<open>-0.1\<close> is Negative, anything
  else is Neutral.
\<close>

definition label_of_score :: "rat \<Rightarrow> label" where
  "label_of_score score =
     (if score > 1 / 10 then Positive
      else if score < - (1 / 10) then Negative
      else Neutral)"

text \<open>Modelled from the spec: the Sentiment Scorer, whose code is missing. The polarity
  function over the text is left open by the specification and is a parameter; empty
  text scores \<open>0.0\<close>; the label is derived from the score by the thresholding rule.
\<close>

definition scorer :: "(string \<Rightarrow> rat) \<Rightarrow> string \<Rightarrow> rat \<times> label" where
  "scorer polarity text =
     (let score = (if text = [] then 0 else polarity text)
      in (score, label_of_score score))"

subsection \<open>Product Identifier Resolver\<close>

text \<open>Modelled from the spec: the extraction pattern of the Resolver, whose code is missing.
  The identifier token is a numeric segment that stands directly before the suffix
  marker \<^verbatim>\<open>.html\<close>.
\<close>

definition id_char :: "char \<Rightarrow> bool" where
  "id_char c = (c \<in> set ''0123456789'')"

text \<open>Modelled from the spec: the known suffix marker that follows the token.\<close>

definition suffix_marker :: string where
  "suffix_marker = ''.html''"

text \<open>Modelled from the spec: the pattern tried at the start of a string. The token is the
  longest run of identifier characters there; it must be non-empty and followed by the
  suffix marker.
\<close>

definition token_at :: "string \<Rightarrow> string option" where
  "token_at s =
     (let t = takeWhile id_char s
      in if t \<noteq> [] \<and> prefix suffix_marker (dropWhile id_char s) then Some t else None)"

text \<open>Modelled from the spec: the search for the pattern through the URL, from the left; the
  first position where the pattern matches gives the token.
\<close>

fun find_token :: "string \<Rightarrow> string option" where
  "find_token [] = None"
| "find_token (c # cs) =
     (case token_at (c # cs) of Some t \<Rightarrow> Some t | None \<Rightarrow> find_token cs)"

text \<open>Modelled from the spec: the Product Identifier Resolver, whose code is missing. It
  returns the product id on a match and fails with \<open>InvalidReferenceError\<close> when no
  token matches.
\<close>

definition resolve :: "string \<Rightarrow> pipeline_error + string" where
  "resolve url = (case find_token url of None \<Rightarrow> Inl InvalidReferenceError | Some t \<Rightarrow> Inr t)"

text \<open>Modelled from the spec: the URL embeds the token \<open>t\<close> between \<open>pre\<close> and the
  suffix marker. This is what it means for a URL to match the identifier pattern, stated
  without the search.
\<close>

definition embeds :: "string \<Rightarrow> string \<Rightarrow> string \<Rightarrow> string \<Rightarrow> bool" where
  "embeds url pre t post =
     (url = pre @ t @ suffix_marker @ post \<and> t \<noteq> [] \<and> list_all id_char t)"

text \<open>Modelled from the spec: a URL that matches the identifier pattern.\<close>

definition matches_pattern :: "string \<Rightarrow> bool" where
  "matches_pattern url = (\<exists>pre t post. embeds url pre t post)"

subsection \<open>Review Source Client\<close>

text \<open>Modelled from the spec: a raw review as the upstream endpoint returns it; text
  and rating may be missing.
\<close>

record raw_review =
  raw_text :: "string option"
  raw_rating :: "int option"

text \<open>Modelled from the spec: the canonical shape of a review, text and numeric rating.\<close>

record normalized_review =
  norm_text :: string
  norm_rating :: int

text \<open>Modelled from the spec: normalisation of one raw review by the Review Source Client,
  whose code is missing. A missing rating becomes the sentinel \<open>0\<close>; a record whose
  text is missing or empty is dropped.
\<close>

definition normalize :: "raw_review \<Rightarrow> normalized_review option" where
  "normalize r =
     (case raw_text r of
        None \<Rightarrow> None
      | Some t \<Rightarrow>
          if t = [] then None
          else Some \<lparr>norm_text = t, norm_rating = (case raw_rating r of None \<Rightarrow> 0 | Some n \<Rightarrow> n)\<rparr>)"

text \<open>Modelled from the spec: normalisation of a page; dropping a record keeps the rest.\<close>

definition normalize_page :: "raw_review list \<Rightarrow> normalized_review list" where
  "normalize_page raws = List.map_filter normalize raws"

text \<open>Modelled from the spec: one answer of the upstream listing endpoint, a page of raw
  reviews with the signal that more pages exist, or a network or upstream error.
\<close>

datatype page_reply = Page "raw_review list" bool | CallFailed

text \<open>Modelled from the spec: the upstream endpoint, as the answer to each attempt (\<open>0\<close>
  the first call, \<open>1\<close> the retry) for each page cursor. The client calls each attempt of
  each page at most once, so every behaviour of the upstream, whatever it depends on, is
  such a function.
\<close>

type_synonym upstream = "nat \<Rightarrow> nat \<Rightarrow> page_reply"

text \<open>Modelled from the spec: one page call of the Review Source Client, whose code is
  missing, retried once when it fails. The result carries the number of calls made.
\<close>

definition call_page :: "upstream \<Rightarrow> nat \<Rightarrow> page_reply \<times> nat" where
  "call_page up page =
     (case up page 0 of
        CallFailed \<Rightarrow> (up page 1, 2)
      | Page raws has_more \<Rightarrow> (Page raws has_more, 1))"

text \<open>Modelled from the spec: the progress of one retrieval, with the reviews gathered so
  far, the pages requested, the calls made to the upstream, and the error that ended the
  retrieval, if any.
\<close>

record retrieval =
  gathered :: "normalized_review list"
  pages_requested :: nat
  calls_made :: nat
  source_error :: "pipeline_error option"

text \<open>Modelled from the spec: the pagination loop of the Review Source Client, whose code is
  missing. The page cursor increases from \<open>1\<close>. The loop stops when the upstream signals
  no more pages, when the configured page-count cap is reached, or when an empty page is
  returned. A page that still fails after its retry ends the loop: with
  \<open>SourceUnavailableError\<close> if it is the very first page, and with the pages already
  retrieved otherwise.
\<close>

function fetch_pages :: "upstream \<Rightarrow> nat \<Rightarrow> nat \<Rightarrow> retrieval \<Rightarrow> retrieval" where
  "fetch_pages up max_pages page st =
     (if max_pages < page then st
      else
        (case call_page up page of
           (CallFailed, k) \<Rightarrow>
             st\<lparr>pages_requested := pages_requested st + 1,
                 calls_made := calls_made st + k,
                 source_error :=
                   Some (if page = 1 then SourceUnavailableError else PartialSourceFailure)\<rparr>
         | (Page raws has_more, k) \<Rightarrow>
             (let st' = st\<lparr>gathered := gathered st @ normalize_page raws,
                              pages_requested := pages_requested st + 1,
                              calls_made := calls_made st + k\<rparr>
              in if \<not> has_more then st'
                 else if raws = [] then st'
                 else fetch_pages up max_pages (page + 1) st')))"
  by pat_completeness auto
termination
  by (relation "measure (\<lambda>(up, max_pages, page, st). Suc max_pages - page)") auto

declare fetch_pages.simps [simp del]

text \<open>Modelled from the spec: the Review Source Client for a configured page cap; the
  retrieval starts at the first page with nothing gathered.
\<close>

definition fetch_reviews :: "upstream \<Rightarrow> nat \<Rightarrow> retrieval" where
  "fetch_reviews up max_pages =
     fetch_pages up max_pages 1
       \<lparr>gathered = [], pages_requested = 0, calls_made = 0, source_error = None\<rparr>"

text \<open>Modelled from the spec: an upstream that always answers with a non-empty page and
  signals that more pages are available.
\<close>

definition always_more :: "upstream \<Rightarrow> bool" where
  "always_more up = (\<forall>page attempt. \<exists>raws. raws \<noteq> [] \<and> up page attempt = Page raws True)"

subsection \<open>Persistence Sink\<close>

text \<open>Modelled from the spec: a spreadsheet row in the fixed five-column layout
  (product name, review text, rating, sentiment label, sentiment score).
\<close>

type_synonym row = "string \<times> string \<times> int \<times> string \<times> rat"

text \<open>Modelled from the spec: the row that the sink writes for a review.\<close>

definition row_of :: "review \<Rightarrow> row" where
  "row_of r =
     (product_name r, review_text r, rating r, sentiment_label r, sentiment_score r)"

text \<open>Modelled from the spec: the Persistence Sink, whose code is missing. It appends one
  row per review, in sequence order. \<open>write_ok i\<close> tells whether the append of row
  \<open>i\<close> of the batch (counted from \<open>1\<close>) succeeds. A failed append writes nothing, ends
  the batch and is reported; the rows written before it stay in the sheet.
\<close>

fun append_rows ::
  "(nat \<Rightarrow> bool) \<Rightarrow> nat \<Rightarrow> row list \<Rightarrow> review list \<Rightarrow> row list \<times> pipeline_error option" where
  "append_rows write_ok i sheet [] = (sheet, None)"
| "append_rows write_ok i sheet (r # rs) =
     (if write_ok i then append_rows write_ok (Suc i) (sheet @ [row_of r]) rs
      else (sheet, Some PersistenceError))"

text \<open>Modelled from the spec: the result payload of one invocation, with the warning
  that reports a non-fatal failure beside the data.
\<close>

record pipeline_result =
  result_reviews :: "review list"
  result_sheet_url :: string
  warning :: "pipeline_error option"

text \<open>Modelled from the spec: the persisting step of the Pipeline Orchestrator, whose code is
  missing. The batch is written to the sheet, and the response carries the reviews that
  were retrieved together with the sheet locator; a failure of the write is reported
  beside the data.
\<close>

definition persist_and_respond ::
  "(nat \<Rightarrow> bool) \<Rightarrow> string \<Rightarrow> row list \<Rightarrow> review list \<Rightarrow> row list \<times> pipeline_result" where
  "persist_and_respond write_ok locator sheet rs =
     (case append_rows write_ok 1 sheet rs of
        (sheet', err) \<Rightarrow>
          (sheet', \<lparr>result_reviews = rs, result_sheet_url = locator, warning = err\<rparr>))"

section \<open>Sample data\<close>

definition sample_reviews :: "review list" where
  "sample_reviews =
     [\<lparr>product_name = ''Kettle'', review_text = ''works well'', rating = 5,
        sentiment_label = ''Positive'', sentiment_score = 1 / 2\<rparr>,
      \<lparr>product_name = ''Kettle'', review_text = ''broke in one day'', rating = 1,
        sentiment_label = ''Negative'', sentiment_score = - (3 / 5)\<rparr>,
      \<lparr>product_name = ''Kettle'', review_text = ''fine'', rating = 4,
        sentiment_label = ''Positive'', sentiment_score = 2 / 5\<rparr>]"

text \<open>A page that still shows the reviews, message and sheet link of an earlier scrape.\<close>

definition stale_state :: page_state where
  "stale_state =
     \<lparr>productUrl = utf16 ''https://www.daraz.pk/products/item-i123456789.html'',
      reviews = sample_reviews,
      isLoading = False, error = Some ''old message'',
      sheetUrl = ''https://docs.google.com/spreadsheets/d/abc''\<rparr>"

text \<open>The same page with a URL that consists of a space and a no-break space.\<close>

definition blank_state :: page_state where
  "blank_state = stale_state\<lparr>productUrl := [0x0020, 0x00A0]\<rparr>"

definition rejecting_fetch :: "js_string \<Rightarrow> fetch_outcome" where
  "rejecting_fetch url =
     Response 500 \<lparr>detail = Some ''Scraper failed'', data = None, sheet_url = None\<rparr>"

definition empty_answer :: scrape_result where
  "empty_answer =
     \<lparr>detail = None, data = Some [],
      sheet_url = Some ''https://docs.google.com/spreadsheets/d/abc''\<rparr>"

definition bare_answer :: scrape_result where
  "bare_answer = \<lparr>detail = None, data = None, sheet_url = None\<rparr>"

definition endless_upstream :: upstream where
  "endless_upstream page attempt =
     Page [\<lparr>raw_text = Some ''good'', raw_rating = Some 5\<rparr>] True"

definition five_reviews :: "raw_review list" where
  "five_reviews = replicate 5 \<lparr>raw_text = Some ''good'', raw_rating = None\<rparr>"

definition three_page_upstream :: upstream where
  "three_page_upstream page attempt =
     (if page \<le> 2 then Page five_reviews True else Page [] True)"

section \<open>Aggregation\<close>

lemma or_zero_Some [simp]: "or_zero (Some n) = n"
  by (simp add: or_zero_def)

lemma or_zero_None [simp]: "or_zero None = 0"
  by (simp add: or_zero_def)

lemma matching_Nil [simp]: "matching l [] = 0"
  by (simp add: matching_def)

lemma matching_Cons:
  "matching l (r # rs) = (if sentiment_label r = l then Suc (matching l rs) else matching l rs)"
  by (simp add: matching_def)

lemma count_review_apply:
  "count_review acc r l =
     (if l = sentiment_label r then Some (or_zero (acc l) + 1) else acc l)"
  by (simp add: count_review_def)

text \<open>
  The fold from any accumulator: a property that is present grows by the number of
  matching reviews; an absent one appears exactly when some review carries its name.
\<close>

lemma reduce_count_review:
  "reduce count_review rs acc l =
     (case acc l of
        Some n \<Rightarrow> Some (n + int (matching l rs))
      | None \<Rightarrow> (if matching l rs = 0 then None else Some (int (matching l rs))))"
proof (induction rs arbitrary: acc)
  case Nil
  show ?case by (simp split: option.split)
next
  case (Cons r rs)
  have step: "reduce count_review (r # rs) acc l =
     (case count_review acc r l of
        Some n \<Rightarrow> Some (n + int (matching l rs))
      | None \<Rightarrow> (if matching l rs = 0 then None else Some (int (matching l rs))))"
    by (simp add: Cons.IH)
  show ?case
    unfolding step
    by (simp add: count_review_apply matching_Cons split: option.split)
qed

lemma initial_counts_label:
  "l \<in> set sentiment_labels \<Longrightarrow> initial_counts l = Some 0"
  by (auto simp: sentiment_labels_def initial_counts_def)

lemma sentimentCounts_label:
  assumes "l \<in> set sentiment_labels"
  shows "sentimentCounts rs l = Some (int (matching l rs))"
proof (cases rs)
  case Nil
  with assms show ?thesis
    by (auto simp: sentimentCounts_def sentiment_labels_def)
next
  case (Cons r rs')
  then have "sentimentCounts rs l = reduce count_review rs initial_counts l"
    by (simp add: sentimentCounts_def)
  with assms show ?thesis
    by (simp add: reduce_count_review initial_counts_label)
qed

text \<open>Every review of the data model is counted under exactly one of the three labels.\<close>

lemma matching_partition:
  "list_all is_review rs \<Longrightarrow>
     matching ''Positive'' rs + matching ''Negative'' rs + matching ''Neutral'' rs = length rs"
  by (induction rs) (auto simp: matching_Cons is_review_def sentiment_labels_def)

text \<open>
  Claim C1. For every sequence of Review records, the aggregation gives for each of the
  three labels the number of reviews carrying that label (one increment per matching
  review), and the three counts sum to the length of the sequence.
\<close>

theorem sentimentCounts_sum:
  assumes "list_all is_review rs"
  shows "sentimentCounts rs ''Positive'' = Some (int (matching ''Positive'' rs))
       \<and> sentimentCounts rs ''Negative'' = Some (int (matching ''Negative'' rs))
       \<and> sentimentCounts rs ''Neutral'' = Some (int (matching ''Neutral'' rs))
       \<and> int (matching ''Positive'' rs) + int (matching ''Negative'' rs)
           + int (matching ''Neutral'' rs) = int (length rs)"
proof -
  have "int (matching ''Positive'' rs) + int (matching ''Negative'' rs)
           + int (matching ''Neutral'' rs) = int (length rs)"
    using matching_partition [OF assms] by linarith
  then show ?thesis
    by (simp add: sentimentCounts_label sentiment_labels_def)
qed

theorem sentimentCounts_sum_witness:
  "list_all is_review sample_reviews
   \<and> sentimentCounts sample_reviews ''Positive'' = Some 2
   \<and> sentimentCounts sample_reviews ''Negative'' = Some 1
   \<and> sentimentCounts sample_reviews ''Neutral'' = Some 0
   \<and> length sample_reviews = 3"
proof -
  have h: "list_all is_review sample_reviews"
    by (simp add: sample_reviews_def is_review_def sentiment_labels_def)
  show ?thesis
    using h sentimentCounts_sum [OF h]
    by (simp add: sample_reviews_def matching_def)
qed

text \<open>
  Claim C2. Aggregation over the empty sequence returns exactly the object with the three
  labels, each mapped to \<open>0\<close>.
\<close>

theorem sentimentCounts_empty:
  "sentimentCounts [] = [''Positive'' \<mapsto> 0, ''Negative'' \<mapsto> 0, ''Neutral'' \<mapsto> 0]"
  by (simp add: sentimentCounts_def)

text \<open>
  Claim C3. Whatever the sequence, the counts object has all three keys, each mapped to a
  non-negative integer, also when a count is zero.
\<close>

theorem sentimentCounts_keys:
  "(\<exists>n. sentimentCounts rs ''Positive'' = Some n \<and> 0 \<le> n)
   \<and> (\<exists>n. sentimentCounts rs ''Negative'' = Some n \<and> 0 \<le> n)
   \<and> (\<exists>n. sentimentCounts rs ''Neutral'' = Some n \<and> 0 \<le> n)"
  by (simp add: sentimentCounts_label sentiment_labels_def)

section \<open>The scrape handler\<close>

text \<open>Both failure paths end in the \<^verbatim>\<open>catch\<close> block, which empties the review list.\<close>

lemma settle_failed_reviews: "failed outcome \<Longrightarrow> reviews (settle outcome s) = []"
  by (cases outcome) (simp_all add: settle_def catch_error_def)

text \<open>
  The guard of the handler: a URL that \<^verbatim>\<open>trim\<close> leaves empty is turned away with a
  message; nothing is cleared and no request is made. The form submits only a filled-in
  \<^verbatim>\<open>type="url"\<close> field that is \<^verbatim>\<open>required\<close>, so this branch is a second line of
  defence.
\<close>

lemma handleScrape_blank:
  "trim (productUrl s) = [] \<Longrightarrow>
     handleScrape fetch s = [s\<lparr>error := Some ''Please enter a product URL.''\<rparr>]"
  by (simp add: handleScrape_def)

lemma trim_blank_state: "trim (productUrl blank_state) = []"
  by (simp add: blank_state_def trim_def is_whitespace_def)

text \<open>A URL of a space and a no-break space is blank for the handler.\<close>

lemma handleScrape_no_break_space:
  "handleScrape fetch blank_state =
     [blank_state\<lparr>error := Some ''Please enter a product URL.''\<rparr>]"
  by (simp add: handleScrape_blank trim_blank_state)

lemma trim_stale_state: "trim (productUrl stale_state) \<noteq> []"
  by (simp add: stale_state_def trim_def is_whitespace_def utf16_def)

text \<open>A request is issued exactly when the guard lets the URL pass.\<close>

lemma handleScrape_requests_iff:
  "(\<exists>s1 s2. handleScrape fetch s = [s1, s2]) \<longleftrightarrow> trim (productUrl s) \<noteq> []"
  by (simp add: handleScrape_def)

text \<open>
  Claim C8. Every scrape that issues a request, that is every run in which the URL passes
  the guard, first clears the displayed reviews, the error message and the sheet URL;
  the request is issued and settled from that cleared state, and when the request fails
  (a response that is not ok, or a thrown error) the review list is empty afterwards.
  No state of such a run shows reviews of an earlier scrape.
\<close>

theorem handleScrape_clears:
  assumes "trim (productUrl s) \<noteq> []"
  shows "\<exists>s1 s2. handleScrape fetch s = [s1, s2]
           \<and> reviews s1 = [] \<and> error s1 = None \<and> sheetUrl s1 = []
           \<and> s2 = settle (fetch (productUrl s)) s1
           \<and> (failed (fetch (productUrl s)) \<longrightarrow> reviews s2 = [])"
  using assms
  by (simp add: handleScrape_def clear_for_request_def settle_failed_reviews)

theorem handleScrape_clears_witness:
  "trim (productUrl stale_state) \<noteq> []
   \<and> reviews stale_state \<noteq> []
   \<and> failed (rejecting_fetch (productUrl stale_state))
   \<and> map reviews (handleScrape rejecting_fetch stale_state) = [[], []]
   \<and> map error (handleScrape rejecting_fetch stale_state) = [None, Some ''Scraper failed'']
   \<and> map sheetUrl (handleScrape rejecting_fetch stale_state) = [[], []]"
proof -
  have h: "trim (productUrl stale_state) \<noteq> []"
    by (rule trim_stale_state)
  have r: "reviews stale_state \<noteq> []"
    by (simp add: stale_state_def sample_reviews_def)
  have f: "failed (rejecting_fetch (productUrl stale_state))"
    by (simp add: rejecting_fetch_def ok_def)
  from handleScrape_clears [OF h, of rejecting_fetch] f h r
  show ?thesis
    by (auto simp: rejecting_fetch_def settle_def ok_def catch_error_def or_string_def)
qed

text \<open>
  Claim C9. When the backend answers with an ok status but the data array is missing or
  empty, the handler sets the error message "No reviews were returned..." although the
  request succeeded, and still stores the sheet URL of the answer.
\<close>

theorem handleScrape_no_reviews:
  assumes "trim (productUrl s) \<noteq> []"
    and "fetch (productUrl s) = Response status result"
    and "ok status"
    and "data result = None \<or> data result = Some []"
  shows "error (last (handleScrape fetch s)) = Some no_reviews_message
       \<and> sheetUrl (last (handleScrape fetch s)) = or_string (sheet_url result) []
       \<and> reviews (last (handleScrape fetch s)) = []
       \<and> isLoading (last (handleScrape fetch s)) = False"
  using assms by (auto simp: handleScrape_def settle_def or_empty_def Let_def)

theorem handleScrape_no_reviews_witness:
  "trim (productUrl stale_state) \<noteq> [] \<and> ok 200
   \<and> (data empty_answer = None \<or> data empty_answer = Some [])
   \<and> (data bare_answer = None \<or> data bare_answer = Some [])
   \<and> error (last (handleScrape (\<lambda>url. Response 200 empty_answer) stale_state))
       = Some no_reviews_message
   \<and> sheetUrl (last (handleScrape (\<lambda>url. Response 200 empty_answer) stale_state))
       = ''https://docs.google.com/spreadsheets/d/abc''
   \<and> error (last (handleScrape (\<lambda>url. Response 200 bare_answer) stale_state))
       = Some no_reviews_message
   \<and> sheetUrl (last (handleScrape (\<lambda>url. Response 200 bare_answer) stale_state)) = []"
proof -
  have u: "trim (productUrl stale_state) \<noteq> []"
    by (rule trim_stale_state)
  have h: "ok 200" by (simp add: ok_def)
  have e: "data empty_answer = None \<or> data empty_answer = Some []"
    by (simp add: empty_answer_def)
  have b: "data bare_answer = None \<or> data bare_answer = Some []"
    by (simp add: bare_answer_def)
  show ?thesis
    using u h e b
      handleScrape_no_reviews
        [of stale_state "\<lambda>url. Response 200 empty_answer" 200 empty_answer]
      handleScrape_no_reviews
        [of stale_state "\<lambda>url. Response 200 bare_answer" 200 bare_answer]
    by (simp add: or_string_def empty_answer_def bare_answer_def)
qed

section \<open>The tooltip percentage\<close>

text \<open>
  Claim C10. The percentage of the pie-chart tooltip never divides by zero: with no
  reviews it is the number \<open>0\<close>, and otherwise it is made from the segment value divided
  by the number of reviews, times \<open>100\<close>; it is never made from an infinity or
  \<^verbatim>\<open>NaN\<close>.
\<close>

theorem percentage_guarded:
  "(totalReviews = 0 \<longrightarrow> percentage v totalReviews = Plain 0)
   \<and> (0 < totalReviews \<longrightarrow>
        percentage v totalReviews = ToFixed1 (Finite (of_int v / of_nat totalReviews * 100)))
   \<and> finite_shown (percentage v totalReviews)"
  by (simp add: percentage_def)

theorem percentage_guarded_witness:
  "percentage 3 0 = Plain 0 \<and> percentage 1 4 = ToFixed1 (Finite 25)
   \<and> finite_shown (percentage 3 0) \<and> finite_shown (percentage 1 4)"
  using percentage_guarded [of 0 3] percentage_guarded [of 4 1] by simp

section \<open>Sentiment Scorer\<close>

text \<open>
  Claim C4. For any review text, the label of the Scorer is Positive exactly when the
  score is above \<open>0.1\<close>, Negative exactly when it is below \<open>-0.1\<close>, and Neutral exactly
  in the remaining band; the label being a single value, the three cases neither overlap
  nor leave a gap.
\<close>

theorem scorer_label_iff:
  "(snd (scorer polarity text) = Positive \<longleftrightarrow> fst (scorer polarity text) > 1 / 10)
   \<and> (snd (scorer polarity text) = Negative \<longleftrightarrow> fst (scorer polarity text) < - (1 / 10))
   \<and> (snd (scorer polarity text) = Neutral \<longleftrightarrow>
        - (1 / 10) \<le> fst (scorer polarity text) \<and> fst (scorer polarity text) \<le> 1 / 10)"
  by (auto simp: scorer_def label_of_score_def Let_def)

section \<open>Product Identifier Resolver\<close>

text \<open>The suffix marker does not begin with an identifier character.\<close>

lemma marker_not_id: "takeWhile id_char (suffix_marker @ post) = []"
  by (simp add: suffix_marker_def id_char_def)

lemma marker_not_id_drop: "dropWhile id_char (suffix_marker @ post) = suffix_marker @ post"
  by (simp add: suffix_marker_def id_char_def)

lemma token_at_embedded:
  assumes "t \<noteq> []" and "list_all id_char t"
  shows "token_at (t @ suffix_marker @ post) = Some t"
proof -
  from assms(2) have all: "\<And>c. c \<in> set t \<Longrightarrow> id_char c"
    by (simp add: list_all_iff)
  have tw: "takeWhile id_char (t @ suffix_marker @ post) = t"
    by (simp add: takeWhile_append2 [OF all] marker_not_id)
  have dw: "dropWhile id_char (t @ suffix_marker @ post) = suffix_marker @ post"
    by (simp add: dropWhile_append2 [OF all] marker_not_id_drop)
  show ?thesis
    unfolding token_at_def tw dw using assms(1) by simp
qed

lemma token_at_SomeD:
  assumes "token_at s = Some t"
  shows "\<exists>post. s = t @ suffix_marker @ post \<and> t \<noteq> [] \<and> list_all id_char t"
proof -
  from assms have t: "t = takeWhile id_char s" and ne: "t \<noteq> []"
    and pre: "prefix suffix_marker (dropWhile id_char s)"
    by (auto simp: token_at_def Let_def split: if_splits)
  from pre obtain post where post: "dropWhile id_char s = suffix_marker @ post"
    by (auto simp: prefix_def)
  have "s = takeWhile id_char s @ dropWhile id_char s" by simp
  then have "s = t @ suffix_marker @ post" using t post by simp
  moreover have "list_all id_char t"
    unfolding t list_all_iff by (auto dest: set_takeWhileD)
  ultimately show ?thesis using ne by blast
qed

lemma find_token_SomeD:
  "find_token url = Some t \<Longrightarrow>
     \<exists>pre post. url = pre @ t @ suffix_marker @ post \<and> t \<noteq> [] \<and> list_all id_char t
        \<and> (\<forall>n < length pre. token_at (drop n url) = None)"
proof (induction url)
  case Nil
  then show ?case by simp
next
  case (Cons c cs)
  show ?case
  proof (cases "token_at (c # cs)")
    case (Some t')
    with Cons.prems have "t' = t" by simp
    with Some token_at_SomeD [of "c # cs" t]
    obtain post where "c # cs = [] @ t @ suffix_marker @ post" "t \<noteq> []" "list_all id_char t"
      by auto
    then show ?thesis by (metis length_0_conv list.size(3) not_less_zero)
  next
    case None
    with Cons.prems have "find_token cs = Some t" by simp
    from Cons.IH [OF this] obtain pre post where
      cs: "cs = pre @ t @ suffix_marker @ post" and t: "t \<noteq> []" "list_all id_char t"
      and left: "\<forall>n < length pre. token_at (drop n cs) = None"
      by blast
    have "\<forall>n < length (c # pre). token_at (drop n (c # cs)) = None"
    proof (intro allI impI)
      fix n assume n: "n < length (c # pre)"
      show "token_at (drop n (c # cs)) = None"
      proof (cases n)
        case 0
        with None show ?thesis by simp
      next
        case (Suc m)
        with n left show ?thesis by simp
      qed
    qed
    moreover have "c # cs = (c # pre) @ t @ suffix_marker @ post" using cs by simp
    ultimately show ?thesis using t by blast
  qed
qed

lemma find_token_NoneD: "find_token url = None \<Longrightarrow> token_at (drop n url) = None"
proof (induction url arbitrary: n)
  case Nil
  show ?case by (simp add: token_at_def)
next
  case (Cons c cs)
  from Cons.prems have here: "token_at (c # cs) = None" and rest: "find_token cs = None"
    by (auto split: option.splits)
  show ?case
  proof (cases n)
    case 0
    with here show ?thesis by simp
  next
    case (Suc m)
    with Cons.IH [OF rest] show ?thesis by simp
  qed
qed

lemma embeds_token_at:
  "embeds url pre t post \<Longrightarrow> token_at (drop (length pre) url) = Some t"
  by (simp add: embeds_def token_at_embedded)

lemma find_token_None_iff: "find_token url = None \<longleftrightarrow> \<not> matches_pattern url"
proof
  assume none: "find_token url = None"
  show "\<not> matches_pattern url"
  proof
    assume "matches_pattern url"
    then obtain pre t post where "embeds url pre t post"
      by (auto simp: matches_pattern_def)
    from embeds_token_at [OF this] find_token_NoneD [OF none, of "length pre"]
    show False by simp
  qed
next
  assume no: "\<not> matches_pattern url"
  show "find_token url = None"
  proof (cases "find_token url")
    case None
    then show ?thesis .
  next
    case (Some t)
    from find_token_SomeD [OF this] have "matches_pattern url"
      unfolding matches_pattern_def embeds_def by blast
    with no show ?thesis by simp
  qed
qed

lemma find_token_leftmost:
  assumes "matches_pattern url"
  shows "\<exists>pre t post. find_token url = Some t \<and> embeds url pre t post
           \<and> (\<forall>pre' t' post'. embeds url pre' t' post' \<longrightarrow> length pre \<le> length pre')"
proof -
  from assms find_token_None_iff [of url] obtain t where some: "find_token url = Some t"
    by (cases "find_token url") auto
  from find_token_SomeD [OF some] obtain pre post where
    e: "embeds url pre t post" and left: "\<forall>n < length pre. token_at (drop n url) = None"
    unfolding embeds_def by blast
  have "\<forall>pre' t' post'. embeds url pre' t' post' \<longrightarrow> length pre \<le> length pre'"
  proof (intro allI impI)
    fix pre' t' post' assume "embeds url pre' t' post'"
    from embeds_token_at [OF this] left show "length pre \<le> length pre'"
      by (metis not_le_imp_less option.distinct(1))
  qed
  with some e show ?thesis by blast
qed

text \<open>
  Claim C5. For every URL that matches the identifier pattern the Resolver returns the
  embedded token, the one of the leftmost match; for every URL that lacks the pattern it
  fails with \<open>InvalidReferenceError\<close>, and it fails so only then. The URL
  \<^verbatim>\<open>https://www.daraz.pk/products/item-i123456789.html\<close> resolves to \<^verbatim>\<open>123456789\<close>.
\<close>

theorem resolve_correct:
  "(matches_pattern url \<longrightarrow>
      (\<exists>pre t post. resolve url = Inr t \<and> embeds url pre t post
         \<and> (\<forall>pre' t' post'. embeds url pre' t' post' \<longrightarrow> length pre \<le> length pre')))
   \<and> (\<not> matches_pattern url \<longrightarrow> resolve url = Inl InvalidReferenceError)
   \<and> (resolve url = Inl InvalidReferenceError \<longleftrightarrow> \<not> matches_pattern url)
   \<and> resolve ''https://www.daraz.pk/products/item-i123456789.html'' = Inr ''123456789''"
proof (intro conjI impI)
  assume "matches_pattern url"
  from find_token_leftmost [OF this]
  show "\<exists>pre t post. resolve url = Inr t \<and> embeds url pre t post
         \<and> (\<forall>pre' t' post'. embeds url pre' t' post' \<longrightarrow> length pre \<le> length pre')"
    unfolding resolve_def by force
next
  assume "\<not> matches_pattern url"
  then show "resolve url = Inl InvalidReferenceError"
    by (simp add: resolve_def find_token_None_iff [symmetric])
next
  show "resolve url = Inl InvalidReferenceError \<longleftrightarrow> \<not> matches_pattern url"
    by (simp add: resolve_def find_token_None_iff [symmetric] split: option.split)
next
  show "resolve ''https://www.daraz.pk/products/item-i123456789.html'' = Inr ''123456789''"
    by (simp add: resolve_def token_at_def id_char_def suffix_marker_def)
qed

theorem resolve_correct_witness:
  "matches_pattern ''https://www.daraz.pk/products/item-i123456789.html''
   \<and> resolve ''https://www.daraz.pk/products/item-i123456789.html'' = Inr ''123456789''
   \<and> \<not> matches_pattern ''https://www.daraz.pk/products/item.html''
   \<and> resolve ''https://www.daraz.pk/products/item.html'' = Inl InvalidReferenceError"
proof -
  have r: "resolve ''https://www.daraz.pk/products/item.html'' = Inl InvalidReferenceError"
    by (simp add: resolve_def token_at_def id_char_def suffix_marker_def)
  have m: "matches_pattern ''https://www.daraz.pk/products/item-i123456789.html''"
    unfolding matches_pattern_def embeds_def
    by (intro exI [of _ "''https://www.daraz.pk/products/item-i''"] exI [of _ "''123456789''"] exI [of _ "[]"])
      (simp add: suffix_marker_def id_char_def)
  show ?thesis
    using m r resolve_correct [of "''https://www.daraz.pk/products/item-i123456789.html''"]
      resolve_correct [of "''https://www.daraz.pk/products/item.html''"]
    by simp
qed

section \<open>Review Source Client\<close>

lemma call_page_calls: "call_page up page = (r, k) \<Longrightarrow> 1 \<le> k \<and> k \<le> 2"
  by (auto simp: call_page_def split: page_reply.splits)

lemma fetch_pages_bound:
  "pages_requested (fetch_pages up max_pages page st) \<le> pages_requested st + (Suc max_pages - page)
   \<and> calls_made (fetch_pages up max_pages page st) \<le> calls_made st + 2 * (Suc max_pages - page)"
proof (induction up max_pages page st rule: fetch_pages.induct)
  case (1 up max_pages page st)
  show ?case
  proof (cases "max_pages < page")
    case True
    then show ?thesis by (simp add: fetch_pages.simps [of up max_pages page st])
  next
    case False
    obtain r k where ck: "call_page up page = (r, k)" by (cases "call_page up page")
    from call_page_calls [OF ck] have k: "1 \<le> k" "k \<le> 2" by simp_all
    show ?thesis
    proof (cases r)
      case CallFailed
      with False ck have "pages_requested (fetch_pages up max_pages page st) = pages_requested st + 1"
        and "calls_made (fetch_pages up max_pages page st) = calls_made st + k"
        by (simp_all add: fetch_pages.simps [of up max_pages page st])
      with False k show ?thesis by arith
    next
      case (Page raws has_more)
      show ?thesis
      proof (cases "has_more \<and> raws \<noteq> []")
        case stop: False
        with False ck Page
        have "pages_requested (fetch_pages up max_pages page st) = pages_requested st + 1"
          and "calls_made (fetch_pages up max_pages page st) = calls_made st + k"
          by (auto simp add: fetch_pages.simps [of up max_pages page st] Let_def)
        with False k show ?thesis by arith
      next
        case True
        define st' where "st' = st\<lparr>gathered := gathered st @ normalize_page raws,
                              pages_requested := pages_requested st + 1,
                              calls_made := calls_made st + k\<rparr>"
        have eq: "fetch_pages up max_pages page st = fetch_pages up max_pages (page + 1) st'"
          using False ck Page True
          by (simp add: fetch_pages.simps [of up max_pages page st] Let_def st'_def)
        have IH: "pages_requested (fetch_pages up max_pages (page + 1) st')
                    \<le> pages_requested st' + (Suc max_pages - (page + 1))
                \<and> calls_made (fetch_pages up max_pages (page + 1) st')
                    \<le> calls_made st' + 2 * (Suc max_pages - (page + 1))"
          using "1.IH" [OF False ck [symmetric] Page st'_def] True by simp
        have p: "pages_requested st' = pages_requested st + 1"
          and c: "calls_made st' = calls_made st + k"
          by (simp_all add: st'_def)
        show ?thesis
          unfolding eq using IH False k p c by arith
      qed
    qed
  qed
qed

lemma call_page_always_more:
  assumes "always_more up"
  shows "\<exists>raws. raws \<noteq> [] \<and> call_page up page = (Page raws True, 1)"
proof -
  from assms obtain raws where "raws \<noteq> []" "up page 0 = Page raws True"
    unfolding always_more_def by blast
  then show ?thesis by (simp add: call_page_def)
qed

lemma fetch_pages_always_more:
  "always_more up \<Longrightarrow>
     pages_requested (fetch_pages up max_pages page st) = pages_requested st + (Suc max_pages - page)
     \<and> calls_made (fetch_pages up max_pages page st) = calls_made st + (Suc max_pages - page)
     \<and> source_error (fetch_pages up max_pages page st) = source_error st"
proof (induction up max_pages page st rule: fetch_pages.induct)
  case (1 up max_pages page st)
  note more = \<open>always_more up\<close>
  show ?case
  proof (cases "max_pages < page")
    case True
    then show ?thesis by (simp add: fetch_pages.simps [of up max_pages page st])
  next
    case False
    from call_page_always_more [OF more, of page] obtain raws where
      raws: "raws \<noteq> []" and ck: "call_page up page = (Page raws True, 1)"
      by blast
    define st' where "st' = st\<lparr>gathered := gathered st @ normalize_page raws,
                              pages_requested := pages_requested st + 1,
                              calls_made := calls_made st + 1\<rparr>"
    have eq: "fetch_pages up max_pages page st = fetch_pages up max_pages (page + 1) st'"
      using False ck raws
      by (simp add: fetch_pages.simps [of up max_pages page st] Let_def st'_def)
    have IH: "pages_requested (fetch_pages up max_pages (page + 1) st')
                = pages_requested st' + (Suc max_pages - (page + 1))
            \<and> calls_made (fetch_pages up max_pages (page + 1) st')
                = calls_made st' + (Suc max_pages - (page + 1))
            \<and> source_error (fetch_pages up max_pages (page + 1) st') = source_error st'"
      using "1.IH" [OF False ck [symmetric] refl st'_def] raws more by simp
    have p: "pages_requested st' = pages_requested st + 1"
      and c: "calls_made st' = calls_made st + 1"
      and e: "source_error st' = source_error st"
      by (simp_all add: st'_def)
    have "pages_requested (fetch_pages up max_pages (page + 1) st')
            = pages_requested st + (Suc max_pages - page)"
      using IH False p by arith
    moreover have "calls_made (fetch_pages up max_pages (page + 1) st')
            = calls_made st + (Suc max_pages - page)"
      using IH False c by arith
    moreover have "source_error (fetch_pages up max_pages (page + 1) st') = source_error st"
      using IH e by simp
    ultimately show ?thesis
      unfolding eq by blast
  qed
qed

text \<open>
  Claim C6. The pagination loop ends within the configured page-count cap whatever the
  upstream does: it requests at most as many pages as the cap allows and makes at most
  two calls per page. Against an upstream that always returns reviews and always signals
  more pages it requests exactly as many pages as the cap and ends without an error.
\<close>

theorem fetch_reviews_within_cap:
  "pages_requested (fetch_reviews up max_pages) \<le> max_pages
   \<and> calls_made (fetch_reviews up max_pages) \<le> 2 * max_pages
   \<and> (always_more up \<longrightarrow>
        pages_requested (fetch_reviews up max_pages) = max_pages
        \<and> source_error (fetch_reviews up max_pages) = None)"
proof (intro conjI impI)
  note b = fetch_pages_bound [of up max_pages 1
      "\<lparr>gathered = [], pages_requested = 0, calls_made = 0, source_error = None\<rparr>"]
  from b show "pages_requested (fetch_reviews up max_pages) \<le> max_pages"
    by (simp add: fetch_reviews_def)
  from b show "calls_made (fetch_reviews up max_pages) \<le> 2 * max_pages"
    by (simp add: fetch_reviews_def)
next
  assume a: "always_more up"
  note m = fetch_pages_always_more [OF a, of max_pages 1
      "\<lparr>gathered = [], pages_requested = 0, calls_made = 0, source_error = None\<rparr>"]
  from m show "pages_requested (fetch_reviews up max_pages) = max_pages"
    by (simp add: fetch_reviews_def)
  from m show "source_error (fetch_reviews up max_pages) = None"
    by (simp add: fetch_reviews_def)
qed

theorem fetch_reviews_within_cap_witness:
  "always_more endless_upstream
   \<and> pages_requested (fetch_reviews endless_upstream 3) = 3
   \<and> calls_made (fetch_reviews endless_upstream 3) \<le> 6"
proof -
  have a: "always_more endless_upstream"
    by (simp add: always_more_def endless_upstream_def)
  show ?thesis
    using a fetch_reviews_within_cap [of endless_upstream 3] by simp
qed

text \<open>
  The upstream of the fifth end-to-end scenario, two pages of five reviews and then an
  empty page: ten reviews are returned and the loop stops after the third page.
\<close>

lemma fetch_reviews_three_pages:
  "length (gathered (fetch_reviews three_page_upstream 10)) = 10
   \<and> pages_requested (fetch_reviews three_page_upstream 10) = 3"
  by code_simp

section \<open>Persistence Sink\<close>

lemma append_rows_all_ok:
  "\<forall>j. i \<le> j \<and> j < i + length rs \<longrightarrow> write_ok j \<Longrightarrow>
     append_rows write_ok i sheet rs = (sheet @ map row_of rs, None)"
  by (induction rs arbitrary: i sheet) auto

lemma append_rows_fails_at:
  "k < length rs \<Longrightarrow> \<forall>j. i \<le> j \<and> j < i + k \<longrightarrow> write_ok j \<Longrightarrow> \<not> write_ok (i + k) \<Longrightarrow>
     append_rows write_ok i sheet rs = (sheet @ map row_of (take k rs), Some PersistenceError)"
proof (induction rs arbitrary: i k sheet)
  case Nil
  then show ?case by simp
next
  case (Cons r rs)
  show ?case
  proof (cases k)
    case 0
    with Cons.prems show ?thesis by simp
  next
    case (Suc k')
    have ok_i: "write_ok i" using Cons.prems(2) Suc by simp
    have "append_rows write_ok (Suc i) (sheet @ [row_of r]) rs =
            ((sheet @ [row_of r]) @ map row_of (take k' rs), Some PersistenceError)"
    proof (rule Cons.IH)
      show "k' < length rs" using Cons.prems(1) Suc by simp
      show "\<forall>j. Suc i \<le> j \<and> j < Suc i + k' \<longrightarrow> write_ok j" using Cons.prems(2) Suc by simp
      show "\<not> write_ok (Suc i + k')" using Cons.prems(3) Suc by simp
    qed
    with ok_i Suc show ?thesis by simp
  qed
qed

text \<open>
  Claim C7. For a batch of \<open>N\<close> reviews in which the write of row \<open>k\<close> is the first to
  fail, the rows \<open>1\<close> to \<open>k - 1\<close> stay in the sheet, the failure is reported, and the
  data set returned to the caller still holds all \<open>N\<close> reviews.
\<close>

theorem persist_partial_failure:
  assumes "1 \<le> k" and "k \<le> length rs"
    and "list_all write_ok [1..<k]" and "\<not> write_ok k"
  shows "persist_and_respond write_ok locator sheet rs =
           (sheet @ map row_of (take (k - 1) rs),
            \<lparr>result_reviews = rs, result_sheet_url = locator, warning = Some PersistenceError\<rparr>)"
proof -
  from assms(3) have before: "\<forall>j. 1 \<le> j \<and> j < k \<longrightarrow> write_ok j"
    by (simp add: list_all_iff)
  have "append_rows write_ok 1 sheet rs =
          (sheet @ map row_of (take (k - 1) rs), Some PersistenceError)"
  proof (rule append_rows_fails_at)
    show "k - 1 < length rs" using assms(1,2) by simp
    show "\<forall>j. 1 \<le> j \<and> j < 1 + (k - 1) \<longrightarrow> write_ok j" using assms(1) before by simp
    show "\<not> write_ok (1 + (k - 1))" using assms(1,4) by simp
  qed
  then show ?thesis by (simp add: persist_and_respond_def)
qed

theorem persist_partial_failure_witness:
  "(1::nat) \<le> 2 \<and> 2 \<le> length sample_reviews
   \<and> list_all (\<lambda>i. i \<noteq> 2) [1..<2] \<and> \<not> (\<lambda>i. i \<noteq> (2::nat)) 2
   \<and> fst (persist_and_respond (\<lambda>i. i \<noteq> 2) ''sheet'' [] sample_reviews)
       = [row_of (hd sample_reviews)]
   \<and> result_reviews (snd (persist_and_respond (\<lambda>i. i \<noteq> 2) ''sheet'' [] sample_reviews))
       = sample_reviews
   \<and> warning (snd (persist_and_respond (\<lambda>i. i \<noteq> 2) ''sheet'' [] sample_reviews))
       = Some PersistenceError
   \<and> length (result_reviews (snd (persist_and_respond (\<lambda>i. i \<noteq> 2) ''sheet'' [] sample_reviews)))
       = 3"
proof -
  have h1: "(1::nat) \<le> 2" by simp
  have h2: "2 \<le> length sample_reviews" by (simp add: sample_reviews_def)
  have h3: "list_all (\<lambda>i. i \<noteq> (2::nat)) [1..<2]" by (simp add: upt_rec)
  have h4: "\<not> (\<lambda>i. i \<noteq> (2::nat)) 2" by simp
  show ?thesis
    using h2 h3 persist_partial_failure [OF h1 h2 h3 h4, of "''sheet''" "[]"]
    by (simp add: sample_reviews_def)
qed

end
